theory Spec2Isabelle
  imports Main
begin

section \<open>Data model of \<open>server/models/Document.js\<close>\<close>

text \<open>
  Mongo object ids are only ever compared through their string form
  (\<open>a.toString() === b.toString()\<close>), which is injective, so an id is a number here.
  \<open>new Date()\<close> is a clock reading handed to the operation that takes it.
\<close>

type_synonym user_id = nat
type_synonym date = nat

datatype level = View | Edit | Admin
datatype privacy = Public | Private
datatype status = Draft | Published | Archived
datatype role = UserRole | AdminRole

text \<open>\<open>permissionSchema\<close>\<close>

record permission =
  perm_user :: user_id
  perm_level :: level
  grantedBy :: user_id
  grantedAt :: date

text \<open>\<open>versionSchema\<close>\<close>

record version =
  v_content :: string
  v_title :: string
  versionNumber :: nat
  createdBy :: user_id
  createdAt :: date
  changeDescription :: string

text \<open>An element of the \<open>mentions\<close> array of \<open>documentSchema\<close>.\<close>

record mention =
  mention_user :: user_id
  mentionedAt :: date

text \<open>
  \<open>documentSchema\<close>. \<open>lastModifiedBy\<close> is the one reference that is not required, so
  it is optional here; every array is a list, in the order of the pushes.
\<close>

record document =
  title :: string
  content :: string
  author :: user_id
  status :: status
  privacy :: privacy
  permissions :: "permission list"
  versions :: "version list"
  currentVersion :: nat
  tags :: "string list"
  mentions :: "mention list"
  collaborators :: "user_id list"
  lastModifiedBy :: "user_id option"
  isDeleted :: bool

section \<open>Methods of the document model\<close>

text \<open>The table \<open>permissionLevels = { view: 1, edit: 2, admin: 3 }\<close> of \<open>hasPermission\<close>.\<close>

fun permissionLevels :: "level \<Rightarrow> nat" where
  "permissionLevels View = 1"
| "permissionLevels Edit = 2"
| "permissionLevels Admin = 3"

text \<open>
  What \<open>toString()\<close> returns on a reference path of a document in memory. A path as
  \<open>findById\<close> loads it holds an object id, whose text is the id; a path that \<open>populate\<close>
  has replaced holds the user document, whose text is what \<open>inspect\<close> prints of it and
  is never the text of an id. \<open>req.user.id\<close> is a string, its own text.
\<close>

datatype ref_text = IdText user_id | InspectText user_id

text \<open>
  \<open>documentSchema.methods.hasPermission\<close>: the public shortcut, the author shortcut, then
  the first entry that \<open>Array.prototype.find\<close> returns for the user. Both comparisons are
  \<open>x.toString() === userId.toString()\<close>; \<open>toString\<close> is what the reference paths
  \<open>author\<close> and \<open>permissions.user\<close> of \<open>this\<close> answer.
\<close>

definition hasPermission_with ::
  "(user_id \<Rightarrow> ref_text) \<Rightarrow> document \<Rightarrow> user_id \<Rightarrow> level \<Rightarrow> bool" where
  "hasPermission_with toString d userId requiredPermission =
     (if privacy d = Public \<and> requiredPermission = View then True
      else if toString (author d) = IdText userId then True
      else (case List.find (\<lambda>p. toString (perm_user p) = IdText userId) (permissions d) of
              None \<Rightarrow> False
            | Some p \<Rightarrow> permissionLevels (perm_level p) \<ge> permissionLevels requiredPermission))"

text \<open>
  The method on a document as \<open>findById\<close> returns it, nothing populated: the call of the
  update route and of the versions route.
\<close>

definition hasPermission :: "document \<Rightarrow> user_id \<Rightarrow> level \<Rightarrow> bool" where
  "hasPermission d userId requiredPermission =
     hasPermission_with IdText d userId requiredPermission"

text \<open>
  In-place mutation of the object that \<open>find\<close> returned: the first element satisfying
  the predicate is replaced, the others and the order are kept.
\<close>

fun update_first :: "('a \<Rightarrow> bool) \<Rightarrow> ('a \<Rightarrow> 'a) \<Rightarrow> 'a list \<Rightarrow> 'a list" where
  "update_first P f [] = []"
| "update_first P f (x # xs) = (if P x then f x # xs else x # update_first P f xs)"

text \<open>
  \<open>documentSchema.methods.addCollaborator\<close>. \<open>collaborators\<close> is a Mongoose array, whose
  \<open>includes\<close> compares object ids by value.
\<close>

definition addCollaborator ::
  "user_id \<Rightarrow> level \<Rightarrow> user_id \<Rightarrow> date \<Rightarrow> document \<Rightarrow> document" where
  "addCollaborator userId perm grantor now d =
     (let d1 = (case List.find (\<lambda>p. perm_user p = userId) (permissions d) of
                  Some existingPermission \<Rightarrow>
                    d\<lparr>permissions :=
                        update_first (\<lambda>p. perm_user p = userId)
                          (\<lambda>p. p\<lparr>perm_level := perm, grantedBy := grantor, grantedAt := now\<rparr>)
                          (permissions d)\<rparr>
                | None \<Rightarrow>
                    d\<lparr>permissions := permissions d @
                        [\<lparr>perm_user = userId, perm_level = perm,
                          grantedBy = grantor, grantedAt = now\<rparr>]\<rparr>)
      in if userId \<in> set (collaborators d1) then d1
         else d1\<lparr>collaborators := collaborators d1 @ [userId]\<rparr>)"

text \<open>\<open>documentSchema.methods.removeCollaborator\<close>\<close>

definition removeCollaborator :: "user_id \<Rightarrow> document \<Rightarrow> document" where
  "removeCollaborator userId d =
     d\<lparr>permissions := filter (\<lambda>p. perm_user p \<noteq> userId) (permissions d),
       collaborators := filter (\<lambda>c. c \<noteq> userId) (collaborators d)\<rparr>"

text \<open>\<open>documentSchema.methods.addMention\<close>\<close>

definition addMention :: "user_id \<Rightarrow> date \<Rightarrow> document \<Rightarrow> document" where
  "addMention userId now d =
     (case List.find (\<lambda>m. mention_user m = userId) (mentions d) of
        Some existingMention \<Rightarrow> d
      | None \<Rightarrow> d\<lparr>mentions := mentions d @ [\<lparr>mention_user = userId, mentionedAt = now\<rparr>]\<rparr>)"

section \<open>Mongoose change tracking and the pre-save hook\<close>

text \<open>
  The hook asks Mongoose \<open>this.isModified('content')\<close> and \<open>this.isModified('title')\<close>.
  A Mongoose document carries, beside its fields, the flag \<open>isNew\<close> and the paths
  assigned since it was loaded or last saved. Assigning a path marks it modified when the
  document is new or when the value differs from the one it holds; \<open>save\<close> runs the
  pre-save hooks, writes the document and clears both. Only the two paths the hook asks
  about are tracked here.
\<close>

datatype path = PathTitle | PathContent

record mdoc =
  obj :: document
  isNew :: bool
  modifiedPaths :: "path list"

definition isModified :: "path \<Rightarrow> mdoc \<Rightarrow> bool" where
  "isModified p m = (p \<in> set (modifiedPaths m))"

text \<open>\<open>Document.findById\<close> hands out a loaded document: not new, nothing modified.\<close>

definition load :: "document \<Rightarrow> mdoc" where
  "load d = \<lparr>obj = d, isNew = False, modifiedPaths = []\<rparr>"

text \<open>A method call or an assignment to a path the hook does not ask about.\<close>

definition on_obj :: "(document \<Rightarrow> document) \<Rightarrow> mdoc \<Rightarrow> mdoc" where
  "on_obj f m = m\<lparr>obj := f (obj m)\<rparr>"

text \<open>\<open>document.title = v\<close> and \<open>document.content = v\<close>\<close>

definition set_title :: "string \<Rightarrow> mdoc \<Rightarrow> mdoc" where
  "set_title v m =
     (if isNew m \<or> v \<noteq> title (obj m)
      then m\<lparr>obj := (obj m)\<lparr>title := v\<rparr>, modifiedPaths := PathTitle # modifiedPaths m\<rparr>
      else m)"

definition set_content :: "string \<Rightarrow> mdoc \<Rightarrow> mdoc" where
  "set_content v m =
     (if isNew m \<or> v \<noteq> content (obj m)
      then m\<lparr>obj := (obj m)\<lparr>content := v\<rparr>, modifiedPaths := PathContent # modifiedPaths m\<rparr>
      else m)"

text \<open>
  \<open>documentSchema.pre('save', ...)\<close>: the entry is built from the fields as they are when
  \<open>save\<close> is called; \<open>this.lastModifiedBy || this.author\<close> falls back to the author.
\<close>

definition pre_save :: "date \<Rightarrow> mdoc \<Rightarrow> mdoc" where
  "pre_save now m =
     (if isModified PathContent m \<or> isModified PathTitle m then
        (let this = obj m;
             newVersion = \<lparr>v_content = content this, v_title = title this,
                           versionNumber = currentVersion this + 1,
                           createdBy = (case lastModifiedBy this of
                                          Some u \<Rightarrow> u | None \<Rightarrow> author this),
                           createdAt = now, changeDescription = []\<rparr>
         in m\<lparr>obj := this\<lparr>versions := versions this @ [newVersion],
                          currentVersion := versionNumber newVersion\<rparr>\<rparr>)
      else m)"

definition save :: "date \<Rightarrow> mdoc \<Rightarrow> mdoc" where
  "save now m = (pre_save now m)\<lparr>isNew := False, modifiedPaths := []\<rparr>"

text \<open>
  \<open>Document.create({title, content, author, privacy, status, tags, lastModifiedBy})\<close>:
  a new document with the schema defaults for the other paths, then \<open>save\<close>.
\<close>

definition Document_create ::
  "date \<Rightarrow> string \<Rightarrow> string \<Rightarrow> user_id \<Rightarrow> privacy \<Rightarrow> status \<Rightarrow> string list \<Rightarrow> user_id \<Rightarrow> mdoc" where
  "Document_create now t c a p s tg lm =
     save now
       \<lparr>obj = \<lparr>title = t, content = c, author = a, status = s, privacy = p,
               permissions = [], versions = [], currentVersion = 1, tags = tg,
               mentions = [], collaborators = [], lastModifiedBy = Some lm,
               isDeleted = False\<rparr>,
        isNew = True, modifiedPaths = [PathTitle, PathContent]\<rparr>"

section \<open>Mentions\<close>

text \<open>The class \<open>\w\<close> of a JavaScript regular expression: ASCII letters, digits, underscore.\<close>

definition isWordChar :: "char \<Rightarrow> bool" where
  "isWordChar c =
     (let n = (of_char c :: nat)
      in (48 \<le> n \<and> n \<le> 57) \<or> (65 \<le> n \<and> n \<le> 90) \<or> n = 95 \<or> (97 \<le> n \<and> n \<le> 122))"

text \<open>
  The loop \<open>while ((match = /@(\w+)/g.exec(content)) !== null)\<close>, returning every
  \<open>match[1]\<close>: the leftmost \<open>@\<close> followed by a word character starts a match, the match
  takes all the word characters that follow, and the search resumes after it.
\<close>

function mentionTokens :: "string \<Rightarrow> string list" where
  "mentionTokens [] = []"
| "mentionTokens (c # cs) =
     (if c = CHR ''@'' \<and> takeWhile isWordChar cs \<noteq> []
      then takeWhile isWordChar cs # mentionTokens (dropWhile isWordChar cs)
      else mentionTokens cs)"
  by pat_completeness auto
termination
  by (relation "measure length") (auto simp: le_imp_less_Suc length_dropWhile_le)

text \<open>
  The body of that loop: \<open>User.findOne\<close> with the token as a case-insensitive pattern on
  name or email is the identity store's answer, a parameter here; a token that finds no
  user is skipped, a user found is pushed, once per match.
\<close>

definition resolveMentions :: "(string \<Rightarrow> user_id option) \<Rightarrow> string \<Rightarrow> user_id list" where
  "resolveMentions findOne c = List.map_filter findOne (mentionTokens c)"

section \<open>Routes of the document router\<close>

text \<open>
  The answers that are not a success: 400, 401, 403, 404, and the 500 of a route's
  \<open>catch\<close> block.
\<close>

datatype error = ValidationError | Unauthenticated | Forbidden | NotFound | InternalError

text \<open>
  \<open>req.body\<close> after the express-validator chain has sanitised it (the title trimmed);
  \<open>None\<close> is an absent field. A privacy or status outside the schema's enums is rejected
  by the chain and has no representation.
\<close>

record body =
  b_title :: "string option"
  b_content :: "string option"
  b_privacy :: "privacy option"
  b_status :: "status option"
  b_tags :: "string list option"

text \<open>
  \<open>router.post('/')\<close>, the specification's \<open>createDocument\<close>: the validation chain, the
  mention loop, \<open>Document.create\<close>, the two \<open>forEach\<close> loops over the resolved mentions,
  and the second \<open>save\<close>.
\<close>

definition post_document ::
  "(string \<Rightarrow> user_id option) \<Rightarrow> date \<Rightarrow> user_id \<Rightarrow> body \<Rightarrow> error + document" where
  "post_document findOne now actor b =
     (case (b_title b, b_content b, b_privacy b, b_status b) of
        (Some t, Some c, Some p, Some s) \<Rightarrow>
          if \<not> (1 \<le> length t \<and> length t \<le> 200) \<or> c = [] \<or> s = Archived
          then Inl ValidationError
          else
            (let ms = resolveMentions findOne c;
                 document = Document_create now t c actor p s
                              (case b_tags b of None \<Rightarrow> [] | Some tg \<Rightarrow> tg) actor;
                 document = foldl (\<lambda>m userId. on_obj (addMention userId now) m) document ms;
                 document = foldl (\<lambda>m userId. on_obj (addCollaborator userId View actor now) m)
                              document ms
             in Inr (obj (save now document)))
      | _ \<Rightarrow> Inl ValidationError)"

text \<open>The validation chain of \<open>router.put('/:id')\<close>: every field is optional.\<close>

definition valid_update :: "body \<Rightarrow> bool" where
  "valid_update b =
     ((case b_title b of None \<Rightarrow> True | Some t \<Rightarrow> 1 \<le> length t \<and> length t \<le> 200)
      \<and> (case b_content b of None \<Rightarrow> True | Some c \<Rightarrow> c \<noteq> []))"

text \<open>\<open>if (field) ...\<close> on a string field of the body: present and not empty.\<close>

definition truthy :: "string option \<Rightarrow> bool" where
  "truthy v = (case v of None \<Rightarrow> False | Some s \<Rightarrow> s \<noteq> [])"

text \<open>
  \<open>router.put('/:id')\<close>, the part after the guards, on the loaded document: the mention
  loop when the body has content, then the assignments in the order of the source.
\<close>

definition put_assign ::
  "(string \<Rightarrow> user_id option) \<Rightarrow> date \<Rightarrow> user_id \<Rightarrow> body \<Rightarrow> mdoc \<Rightarrow> mdoc" where
  "put_assign findOne now actor b document0 =
     (let document =
            (if truthy (b_content b)
             then foldl (\<lambda>m userId.
                           on_obj (addCollaborator userId View actor now)
                             (on_obj (addMention userId now) m))
                    document0 (resolveMentions findOne (the (b_content b)))
             else document0);
          document = (if truthy (b_title b) then set_title (the (b_title b)) document
                      else document);
          document = (if truthy (b_content b) then set_content (the (b_content b)) document
                      else document);
          document = (case b_privacy b of None \<Rightarrow> document
                      | Some p \<Rightarrow> on_obj (\<lambda>x. x\<lparr>privacy := p\<rparr>) document);
          document = (case b_status b of None \<Rightarrow> document
                      | Some s \<Rightarrow> on_obj (\<lambda>x. x\<lparr>status := s\<rparr>) document);
          document = (case b_tags b of None \<Rightarrow> document
                      | Some tg \<Rightarrow> on_obj (\<lambda>x. x\<lparr>tags := tg\<rparr>) document)
      in on_obj (\<lambda>x. x\<lparr>lastModifiedBy := Some actor\<rparr>) document)"

text \<open>
  \<open>router.put('/:id')\<close>, the specification's \<open>updateDocument\<close>, on the result of
  \<open>Document.findById\<close>: the validation chain, the two guards, the assignments and
  \<open>save\<close>.
\<close>

definition put_document ::
  "(string \<Rightarrow> user_id option) \<Rightarrow> date \<Rightarrow> user_id \<Rightarrow> document option \<Rightarrow> body \<Rightarrow> error + document" where
  "put_document findOne now actor found b =
     (if \<not> valid_update b then Inl ValidationError
      else case found of
        None \<Rightarrow> Inl NotFound
      | Some d \<Rightarrow>
          if isDeleted d then Inl NotFound
          else if \<not> hasPermission d actor Edit then Inl Forbidden
          else Inr (obj (save now (put_assign findOne now actor b (load d)))))"

text \<open>
  \<open>router.get('/:id')\<close> on the result of \<open>Document.findById(...).populate(...)\<close>:
  \<open>author\<close> and \<open>permissions.user\<close> are among the populated paths when the method is
  called. \<open>user\<close> is \<open>req.user\<close> of \<open>optionalAuth\<close>.
\<close>

definition get_document :: "user_id option \<Rightarrow> document option \<Rightarrow> error + document" where
  "get_document user found =
     (case found of
        None \<Rightarrow> Inl NotFound
      | Some d \<Rightarrow>
          if isDeleted d then Inl NotFound
          else if privacy d = Private then
            (case user of
               None \<Rightarrow> Inl Unauthenticated
             | Some userId \<Rightarrow>
                 if \<not> hasPermission_with InspectText d userId View then Inl Forbidden
                 else Inr d)
          else Inr d)"

text \<open>\<open>router.delete('/:id')\<close> on the result of \<open>Document.findById\<close>.\<close>

definition delete_document ::
  "date \<Rightarrow> user_id \<Rightarrow> role \<Rightarrow> document option \<Rightarrow> error + document" where
  "delete_document now actor actorRole found =
     (case found of
        None \<Rightarrow> Inl NotFound
      | Some d \<Rightarrow>
          if isDeleted d then Inl NotFound
          else if author d \<noteq> actor \<and> actorRole \<noteq> AdminRole then Inl Forbidden
          else Inr (obj (save now (on_obj (\<lambda>x. x\<lparr>isDeleted := True\<rparr>) (load d)))))"

text \<open>
  \<open>router.post('/:id/collaborators')\<close>: \<open>target\<close> is the answer of \<open>User.findOne({ email })\<close>,
  a missing user being the route's second 404.
\<close>

definition post_collaborator ::
  "date \<Rightarrow> user_id \<Rightarrow> role \<Rightarrow> document option \<Rightarrow> user_id option \<Rightarrow> level \<Rightarrow> error + document" where
  "post_collaborator now actor actorRole found target perm =
     (case found of
        None \<Rightarrow> Inl NotFound
      | Some d \<Rightarrow>
          if isDeleted d then Inl NotFound
          else if author d \<noteq> actor \<and> actorRole \<noteq> AdminRole then Inl Forbidden
          else (case target of
                  None \<Rightarrow> Inl NotFound
                | Some userId \<Rightarrow>
                    Inr (obj (save now (on_obj (addCollaborator userId perm actor now) (load d))))))"

text \<open>\<open>router.delete('/:id/collaborators/:userId')\<close>\<close>

definition delete_collaborator ::
  "date \<Rightarrow> user_id \<Rightarrow> role \<Rightarrow> document option \<Rightarrow> user_id \<Rightarrow> error + document" where
  "delete_collaborator now actor actorRole found userId =
     (case found of
        None \<Rightarrow> Inl NotFound
      | Some d \<Rightarrow>
          if isDeleted d then Inl NotFound
          else if author d \<noteq> actor \<and> actorRole \<noteq> AdminRole then Inl Forbidden
          else Inr (obj (save now (on_obj (removeCollaborator userId) (load d)))))"





section \<open>The mirror invariant and the documents the routes produce\<close>

text \<open>
  \<open>collaborators\<close> and the users of \<open>permissions\<close> hold the same ids, each once.
\<close>

definition doc_inv :: "document \<Rightarrow> bool" where
  "doc_inv d \<longleftrightarrow>
     set (collaborators d) = set (map perm_user (permissions d))
     \<and> distinct (collaborators d)
     \<and> distinct (map perm_user (permissions d))"

text \<open>
  The documents that exist: what the create route returns, and what the routes that save
  return on a document that exists. The identity store, the clock, the actor and the body
  are arbitrary at every step.
\<close>

inductive reachable :: "document \<Rightarrow> bool" where
  created: "post_document findOne now actor b = Inr d \<Longrightarrow> reachable d"
| updated: "reachable d \<Longrightarrow> put_document findOne now actor (Some d) b = Inr d' \<Longrightarrow> reachable d'"
| granted: "reachable d \<Longrightarrow> post_collaborator now actor actorRole (Some d) target perm = Inr d'
              \<Longrightarrow> reachable d'"
| revoked: "reachable d \<Longrightarrow> delete_collaborator now actor actorRole (Some d) userId = Inr d'
              \<Longrightarrow> reachable d'"
| deleted: "reachable d \<Longrightarrow> delete_document now actor actorRole (Some d) = Inr d' \<Longrightarrow> reachable d'"

section \<open>A concrete run\<close>

text \<open>
  An identity store with two users, and a document taken through the routes: created by
  user 1 with two mentions, shared with user 7 as editor, retitled, published, and edited
  with a mention of the editor.
\<close>

definition directory :: "string \<Rightarrow> user_id option" where
  "directory token =
     (if token = ''alice'' then Some 7 else if token = ''bob'' then Some 8 else None)"

definition body_plan :: body where
  "body_plan = \<lparr>b_title = Some ''Plan'',
                b_content = Some ''Welcome @alice and @bob, thanks @alice'',
                b_privacy = Some Private, b_status = Some Draft, b_tags = None\<rparr>"

definition doc_plan :: document where
  "doc_plan =
     \<lparr>title = ''Plan'', content = ''Welcome @alice and @bob, thanks @alice'', author = 1,
      status = Draft, privacy = Private,
      permissions = [\<lparr>perm_user = 7, perm_level = View, grantedBy = 1, grantedAt = 10\<rparr>,
                     \<lparr>perm_user = 8, perm_level = View, grantedBy = 1, grantedAt = 10\<rparr>],
      versions = [\<lparr>v_content = ''Welcome @alice and @bob, thanks @alice'', v_title = ''Plan'',
                   versionNumber = 2, createdBy = 1, createdAt = 10, changeDescription = []\<rparr>],
      currentVersion = 2, tags = [],
      mentions = [\<lparr>mention_user = 7, mentionedAt = 10\<rparr>,
                  \<lparr>mention_user = 8, mentionedAt = 10\<rparr>],
      collaborators = [7, 8], lastModifiedBy = Some 1, isDeleted = False\<rparr>"

definition doc_shared :: document where
  "doc_shared = doc_plan\<lparr>permissions :=
      [\<lparr>perm_user = 7, perm_level = Edit, grantedBy = 1, grantedAt = 11\<rparr>,
       \<lparr>perm_user = 8, perm_level = View, grantedBy = 1, grantedAt = 10\<rparr>]\<rparr>"

definition body_retitle :: body where
  "body_retitle = \<lparr>b_title = Some ''Plan B'', b_content = None, b_privacy = None,
                   b_status = None, b_tags = None\<rparr>"

definition doc_plan_b :: document where
  "doc_plan_b = doc_plan\<lparr>title := ''Plan B'',
      versions := versions doc_plan @
        [\<lparr>v_content = content doc_plan, v_title = ''Plan B'', versionNumber = 3,
          createdBy = 1, createdAt = 12, changeDescription = []\<rparr>],
      currentVersion := 3\<rparr>"

definition body_publish :: body where
  "body_publish = \<lparr>b_title = None, b_content = None, b_privacy = Some Public,
                   b_status = Some Published, b_tags = Some [''roadmap'']\<rparr>"

definition doc_published :: document where
  "doc_published = doc_shared\<lparr>privacy := Public, status := Published, tags := [''roadmap''],
                              lastModifiedBy := Some 7\<rparr>"

definition body_ping :: body where
  "body_ping = \<lparr>b_title = None, b_content = Some ''Plan, reviewed by @alice'',
                b_privacy = None, b_status = None, b_tags = None\<rparr>"

definition doc_pinged :: document where
  "doc_pinged = doc_shared\<lparr>content := ''Plan, reviewed by @alice'',
      permissions :=
        [\<lparr>perm_user = 7, perm_level = View, grantedBy = 1, grantedAt = 14\<rparr>,
         \<lparr>perm_user = 8, perm_level = View, grantedBy = 1, grantedAt = 10\<rparr>],
      versions := versions doc_shared @
        [\<lparr>v_content = ''Plan, reviewed by @alice'', v_title = ''Plan'', versionNumber = 3,
          createdBy = 1, createdAt = 14, changeDescription = []\<rparr>],
      currentVersion := 3\<rparr>"

section \<open>The permission method on an unpopulated document\<close>

lemma hasPermission_unfold:
  "hasPermission d userId requiredPermission =
     (if privacy d = Public \<and> requiredPermission = View then True
      else if author d = userId then True
      else (case List.find (\<lambda>p. perm_user p = userId) (permissions d) of
              None \<Rightarrow> False
            | Some p \<Rightarrow> permissionLevels (perm_level p) \<ge> permissionLevels requiredPermission))"
  by (simp add: hasPermission_def hasPermission_with_def)

section \<open>Lists with at most one element per key\<close>

lemma find_distinct_key:
  "distinct (map k xs) \<Longrightarrow> x \<in> set xs \<Longrightarrow> List.find (\<lambda>p. k p = k x) xs = Some x"
  by (induction xs) (auto simp: image_iff)

lemma filter_distinct_key:
  "distinct (map k xs) \<Longrightarrow> x \<in> set xs \<Longrightarrow> filter (\<lambda>p. k p = k x) xs = [x]"
proof (induction xs)
  case Nil
  then show ?case by simp
next
  case (Cons a xs)
  show ?case
  proof (cases "a = x")
    case True
    with Cons.prems have "\<forall>y \<in> set xs. k y \<noteq> k x" by (auto simp: image_iff)
    then have "filter (\<lambda>p. k p = k x) xs = []" by (simp add: filter_empty_conv)
    with True show ?thesis by simp
  next
    case False
    with Cons show ?thesis by auto
  qed
qed

lemma count_list_distinct: "distinct xs \<Longrightarrow> x \<in> set xs \<Longrightarrow> count_list xs x = 1"
  by (induction xs) (auto simp: count_list_0_iff)

lemma map_update_first:
  "(\<And>x. P x \<Longrightarrow> k (f x) = k x) \<Longrightarrow> map k (update_first P f xs) = map k xs"
  by (induction xs) auto

lemma length_update_first: "length (update_first P f xs) = length xs"
  by (induction xs) auto

lemma set_update_first:
  "y \<in> set (update_first P f xs) \<Longrightarrow> y \<in> set xs \<or> (\<exists>x \<in> set xs. P x \<and> y = f x)"
  by (induction xs) (auto split: if_splits)

lemma update_first_mem:
  "x \<in> set xs \<Longrightarrow> P x \<Longrightarrow> \<exists>z \<in> set xs. P z \<and> f z \<in> set (update_first P f xs)"
  by (induction xs) auto

lemma find_None_key: "List.find (\<lambda>p. k p = u) xs = None \<longleftrightarrow> u \<notin> k ` set xs"
  by (auto simp: find_None_iff)

lemma find_Some_key: "List.find (\<lambda>p. k p = u) xs = Some y \<Longrightarrow> u \<in> k ` set xs"
  by (auto simp: find_Some_iff image_iff)

lemma addCollaborator_users:
  "map perm_user (permissions (addCollaborator u l g t d)) =
     (if u \<in> perm_user ` set (permissions d) then map perm_user (permissions d)
      else map perm_user (permissions d) @ [u])"
proof (cases "List.find (\<lambda>p. perm_user p = u) (permissions d)")
  case None
  then show ?thesis
    by (simp add: addCollaborator_def Let_def find_None_key [symmetric])
next
  case (Some y)
  from find_Some_key [OF Some] Some show ?thesis
    by (simp add: addCollaborator_def Let_def map_update_first)
qed

lemma addCollaborator_collaborators:
  "collaborators (addCollaborator u l g t d) =
     (if u \<in> set (collaborators d) then collaborators d else collaborators d @ [u])"
  by (simp add: addCollaborator_def Let_def split: option.splits)

lemma addCollaborator_entry:
  assumes "p \<in> set (permissions (addCollaborator u l g t d))"
  shows "p \<in> set (permissions d) \<or>
         p = \<lparr>perm_user = u, perm_level = l, grantedBy = g, grantedAt = t\<rparr>"
proof (cases "List.find (\<lambda>p. perm_user p = u) (permissions d)")
  case None
  with assms show ?thesis
    by (auto simp: addCollaborator_def Let_def split: if_splits)
next
  case (Some y)
  with assms have "p \<in> set (update_first (\<lambda>p. perm_user p = u)
      (\<lambda>p. p\<lparr>perm_level := l, grantedBy := g, grantedAt := t\<rparr>) (permissions d))"
    by (auto simp: addCollaborator_def Let_def split: if_splits)
  from set_update_first [OF this] show ?thesis by auto
qed

lemma addCollaborator_has_entry:
  "\<lparr>perm_user = u, perm_level = l, grantedBy = g, grantedAt = t\<rparr>
     \<in> set (permissions (addCollaborator u l g t d))"
proof (cases "List.find (\<lambda>p. perm_user p = u) (permissions d)")
  case None
  then show ?thesis
    by (simp add: addCollaborator_def Let_def)
next
  case (Some y)
  then have y: "y \<in> set (permissions d)" "perm_user y = u"
    by (auto simp: find_Some_iff)
  from update_first_mem [of y "permissions d" "\<lambda>p. perm_user p = u"
      "\<lambda>p. p\<lparr>perm_level := l, grantedBy := g, grantedAt := t\<rparr>"] y
  obtain z where "perm_user z = u"
    "z\<lparr>perm_level := l, grantedBy := g, grantedAt := t\<rparr> \<in> set (update_first (\<lambda>p. perm_user p = u)
      (\<lambda>p. p\<lparr>perm_level := l, grantedBy := g, grantedAt := t\<rparr>) (permissions d))"
    by auto
  moreover from this(1)
  have "z\<lparr>perm_level := l, grantedBy := g, grantedAt := t\<rparr>
      = \<lparr>perm_user = u, perm_level = l, grantedBy = g, grantedAt = t\<rparr>"
    by simp
  ultimately show ?thesis using Some
    by (simp add: addCollaborator_def Let_def)
qed

lemma addCollaborator_frame:
  "title (addCollaborator u l g t d) = title d"
  "content (addCollaborator u l g t d) = content d"
  "author (addCollaborator u l g t d) = author d"
  "status (addCollaborator u l g t d) = status d"
  "privacy (addCollaborator u l g t d) = privacy d"
  "versions (addCollaborator u l g t d) = versions d"
  "currentVersion (addCollaborator u l g t d) = currentVersion d"
  "tags (addCollaborator u l g t d) = tags d"
  "mentions (addCollaborator u l g t d) = mentions d"
  "lastModifiedBy (addCollaborator u l g t d) = lastModifiedBy d"
  "isDeleted (addCollaborator u l g t d) = isDeleted d"
  by (simp_all add: addCollaborator_def Let_def split: option.splits)

lemma addMention_frame:
  "title (addMention u t d) = title d"
  "content (addMention u t d) = content d"
  "author (addMention u t d) = author d"
  "status (addMention u t d) = status d"
  "privacy (addMention u t d) = privacy d"
  "permissions (addMention u t d) = permissions d"
  "versions (addMention u t d) = versions d"
  "currentVersion (addMention u t d) = currentVersion d"
  "tags (addMention u t d) = tags d"
  "collaborators (addMention u t d) = collaborators d"
  "lastModifiedBy (addMention u t d) = lastModifiedBy d"
  "isDeleted (addMention u t d) = isDeleted d"
  by (simp_all add: addMention_def split: option.splits)

lemma addMention_mentions:
  "mentions (addMention u t d) =
     (if u \<in> mention_user ` set (mentions d) then mentions d
      else mentions d @ [\<lparr>mention_user = u, mentionedAt = t\<rparr>])"
proof (cases "List.find (\<lambda>m. mention_user m = u) (mentions d)")
  case None
  then show ?thesis
    by (simp add: addMention_def find_None_key [symmetric])
next
  case (Some y)
  from find_Some_key [OF Some] Some show ?thesis
    by (simp add: addMention_def)
qed

section \<open>Change tracking, the hook and the invariant\<close>

lemma obj_on_obj [simp]: "obj (on_obj f m) = f (obj m)"
  and isNew_on_obj [simp]: "isNew (on_obj f m) = isNew m"
  and modifiedPaths_on_obj [simp]: "modifiedPaths (on_obj f m) = modifiedPaths m"
  by (simp_all add: on_obj_def)

lemma load_simps [simp]:
  "obj (load d) = d" "isNew (load d) = False" "modifiedPaths (load d) = []"
  by (simp_all add: load_def)

lemma obj_set_title [simp]: "obj (set_title v m) = (obj m)\<lparr>title := v\<rparr>"
  and isNew_set_title [simp]: "isNew (set_title v m) = isNew m"
  and modifiedPaths_set_title: "modifiedPaths (set_title v m) =
        (if isNew m \<or> v \<noteq> title (obj m) then PathTitle # modifiedPaths m else modifiedPaths m)"
  by (simp_all add: set_title_def)

lemma obj_set_content [simp]: "obj (set_content v m) = (obj m)\<lparr>content := v\<rparr>"
  and isNew_set_content [simp]: "isNew (set_content v m) = isNew m"
  and modifiedPaths_set_content: "modifiedPaths (set_content v m) =
        (if isNew m \<or> v \<noteq> content (obj m) then PathContent # modifiedPaths m else modifiedPaths m)"
  by (simp_all add: set_content_def)

lemma foldl_on_obj:
  "foldl (\<lambda>m u. on_obj (f u) m) m us = on_obj (\<lambda>d. foldl (\<lambda>d u. f u d) d us) m"
proof (induction us arbitrary: m)
  case Nil
  show ?case by (simp add: on_obj_def)
next
  case (Cons u us)
  show ?case by (simp add: Cons.IH)
qed

lemma foldl_on_obj2:
  "foldl (\<lambda>m u. on_obj (f u) (on_obj (g u) m)) m us
     = on_obj (\<lambda>d. foldl (\<lambda>d u. f u (g u d)) d us) m"
proof (induction us arbitrary: m)
  case Nil
  show ?case by (simp add: on_obj_def)
next
  case (Cons u us)
  show ?case by (simp add: Cons.IH)
qed

lemma obj_save:
  "obj (save now m) =
     (if PathContent \<in> set (modifiedPaths m) \<or> PathTitle \<in> set (modifiedPaths m)
      then (obj m)\<lparr>versions := versions (obj m) @
              [\<lparr>v_content = content (obj m), v_title = title (obj m),
                versionNumber = currentVersion (obj m) + 1,
                createdBy = (case lastModifiedBy (obj m) of Some u \<Rightarrow> u | None \<Rightarrow> author (obj m)),
                createdAt = now, changeDescription = []\<rparr>],
            currentVersion := currentVersion (obj m) + 1\<rparr>
      else obj m)"
  by (simp add: save_def pre_save_def isModified_def Let_def)

lemma save_flags [simp]: "isNew (save now m) = False" "modifiedPaths (save now m) = []"
  by (simp_all add: save_def)

text \<open>The mention loops leave everything but mentions, permissions and collaborators alone.\<close>

lemma fold_mentions_frame:
  fixes us :: "user_id list" and a :: user_id and t :: date
  defines "F \<equiv> \<lambda>d. foldl (\<lambda>d u. addCollaborator u View a t (addMention u t d)) d us"
  shows "title (F d) = title d" "content (F d) = content d" "author (F d) = author d"
    "status (F d) = status d" "privacy (F d) = privacy d" "versions (F d) = versions d"
    "currentVersion (F d) = currentVersion d" "tags (F d) = tags d"
    "lastModifiedBy (F d) = lastModifiedBy d" "isDeleted (F d) = isDeleted d"
  unfolding F_def
  by (induction us arbitrary: d; simp add: addCollaborator_frame addMention_frame)+

lemma doc_inv_addCollaborator: "doc_inv d \<Longrightarrow> doc_inv (addCollaborator u l g t d)"
  unfolding doc_inv_def
  by (simp add: addCollaborator_users addCollaborator_collaborators)

lemma doc_inv_addMention: "doc_inv (addMention u t d) = doc_inv d"
  by (simp add: doc_inv_def addMention_frame)

lemma doc_inv_removeCollaborator: "doc_inv d \<Longrightarrow> doc_inv (removeCollaborator u d)"
  unfolding doc_inv_def
  by (auto simp: removeCollaborator_def distinct_map_filter)

lemma doc_inv_fold_mentions:
  "doc_inv d \<Longrightarrow> doc_inv (foldl (\<lambda>d u. addCollaborator u View a t (addMention u t d)) d us)"
  by (induction us arbitrary: d) (simp_all add: doc_inv_addCollaborator doc_inv_addMention)

lemma fold_mentions_frame2 [simp]:
  "title (foldl (\<lambda>d u. addCollaborator u View a t (addMention u t d)) d us) = title d"
  "content (foldl (\<lambda>d u. addCollaborator u View a t (addMention u t d)) d us) = content d"
  "author (foldl (\<lambda>d u. addCollaborator u View a t (addMention u t d)) d us) = author d"
  "versions (foldl (\<lambda>d u. addCollaborator u View a t (addMention u t d)) d us) = versions d"
  "currentVersion (foldl (\<lambda>d u. addCollaborator u View a t (addMention u t d)) d us) = currentVersion d"
  "isDeleted (foldl (\<lambda>d u. addCollaborator u View a t (addMention u t d)) d us) = isDeleted d"
  by (induction us arbitrary: d; simp add: addCollaborator_frame addMention_frame)+

lemma put_assign_title:
  "title (obj (put_assign findOne now actor b m)) =
     (if truthy (b_title b) then the (b_title b) else title (obj m))"
  by (simp add: put_assign_def Let_def foldl_on_obj2 split: option.splits)

lemma put_assign_content:
  "content (obj (put_assign findOne now actor b m)) =
     (if truthy (b_content b) then the (b_content b) else content (obj m))"
  by (simp add: put_assign_def Let_def foldl_on_obj2 split: option.splits)

lemma put_assign_frame:
  "versions (obj (put_assign findOne now actor b m)) = versions (obj m)"
  "currentVersion (obj (put_assign findOne now actor b m)) = currentVersion (obj m)"
  "author (obj (put_assign findOne now actor b m)) = author (obj m)"
  "isDeleted (obj (put_assign findOne now actor b m)) = isDeleted (obj m)"
  "lastModifiedBy (obj (put_assign findOne now actor b m)) = Some actor"
  by (simp_all add: put_assign_def Let_def foldl_on_obj2 split: option.splits)

lemma put_assign_access:
  "permissions (obj (put_assign findOne now actor b m)) =
     permissions (if truthy (b_content b)
        then foldl (\<lambda>d u. addCollaborator u View actor now (addMention u now d)) (obj m)
               (resolveMentions findOne (the (b_content b)))
        else obj m)"
  "collaborators (obj (put_assign findOne now actor b m)) =
     collaborators (if truthy (b_content b)
        then foldl (\<lambda>d u. addCollaborator u View actor now (addMention u now d)) (obj m)
               (resolveMentions findOne (the (b_content b)))
        else obj m)"
  "mentions (obj (put_assign findOne now actor b m)) =
     mentions (if truthy (b_content b)
        then foldl (\<lambda>d u. addCollaborator u View actor now (addMention u now d)) (obj m)
               (resolveMentions findOne (the (b_content b)))
        else obj m)"
  by (simp_all add: put_assign_def Let_def foldl_on_obj2 split: option.splits)

lemma put_assign_modified:
  assumes "\<not> isNew m" "modifiedPaths m = []"
  shows "PathTitle \<in> set (modifiedPaths (put_assign findOne now actor b m))
           \<longleftrightarrow> title (obj (put_assign findOne now actor b m)) \<noteq> title (obj m)"
    and "PathContent \<in> set (modifiedPaths (put_assign findOne now actor b m))
           \<longleftrightarrow> content (obj (put_assign findOne now actor b m)) \<noteq> content (obj m)"
  using assms
  by (simp_all add: put_assign_def Let_def foldl_on_obj2 modifiedPaths_set_title
        modifiedPaths_set_content split: option.splits)

lemma put_document_Inr:
  assumes "put_document findOne now actor found b = Inr d'"
  obtains d where "found = Some d" "\<not> isDeleted d" "hasPermission d actor Edit" "valid_update b"
    "d' = obj (save now (put_assign findOne now actor b (load d)))"
  using assms by (auto simp: put_document_def split: if_splits option.splits)

section \<open>The concrete run, evaluated\<close>

lemma tokens_plan:
  "mentionTokens ''Welcome @alice and @bob, thanks @alice'' = [''alice'', ''bob'', ''alice'']"
  by code_simp

lemma resolve_plan:
  "resolveMentions directory ''Welcome @alice and @bob, thanks @alice'' = [7, 8, 7]"
  by (simp add: resolveMentions_def tokens_plan List.map_filter_simps directory_def
        del: mentionTokens.simps)

lemma post_document_plan: "post_document directory 10 1 body_plan = Inr doc_plan"
  by (simp add: post_document_def body_plan_def resolve_plan Document_create_def Let_def
        obj_save addMention_def addCollaborator_def doc_plan_def save_def pre_save_def isModified_def on_obj_def)

subsection \<open>The two loops of the create route\<close>

lemma fold_addMention_frame [simp]:
  "permissions (foldl (\<lambda>x u. addMention u t x) d us) = permissions d"
  "collaborators (foldl (\<lambda>x u. addMention u t x) d us) = collaborators d"
  "title (foldl (\<lambda>x u. addMention u t x) d us) = title d"
  "content (foldl (\<lambda>x u. addMention u t x) d us) = content d"
  "author (foldl (\<lambda>x u. addMention u t x) d us) = author d"
  "versions (foldl (\<lambda>x u. addMention u t x) d us) = versions d"
  "currentVersion (foldl (\<lambda>x u. addMention u t x) d us) = currentVersion d"
  "lastModifiedBy (foldl (\<lambda>x u. addMention u t x) d us) = lastModifiedBy d"
  "isDeleted (foldl (\<lambda>x u. addMention u t x) d us) = isDeleted d"
  by (induction us arbitrary: d; simp add: addMention_frame)+

lemma fold_addCollaborator_frame [simp]:
  "mentions (foldl (\<lambda>x u. addCollaborator u l a t x) d us) = mentions d"
  "title (foldl (\<lambda>x u. addCollaborator u l a t x) d us) = title d"
  "content (foldl (\<lambda>x u. addCollaborator u l a t x) d us) = content d"
  "author (foldl (\<lambda>x u. addCollaborator u l a t x) d us) = author d"
  "versions (foldl (\<lambda>x u. addCollaborator u l a t x) d us) = versions d"
  "currentVersion (foldl (\<lambda>x u. addCollaborator u l a t x) d us) = currentVersion d"
  "lastModifiedBy (foldl (\<lambda>x u. addCollaborator u l a t x) d us) = lastModifiedBy d"
  "isDeleted (foldl (\<lambda>x u. addCollaborator u l a t x) d us) = isDeleted d"
  by (induction us arbitrary: d; simp add: addCollaborator_frame)+

lemma fold_addMention_users:
  "set (map mention_user (mentions (foldl (\<lambda>x u. addMention u t x) d us)))
     = set (map mention_user (mentions d)) \<union> set us"
  by (induction us arbitrary: d) (auto simp: addMention_mentions)

lemma fold_addMention_distinct:
  "distinct (map mention_user (mentions d))
     \<Longrightarrow> distinct (map mention_user (mentions (foldl (\<lambda>x u. addMention u t x) d us)))"
  by (induction us arbitrary: d) (auto simp: addMention_mentions)

lemma fold_addMention_entries:
  "m \<in> set (mentions (foldl (\<lambda>x u. addMention u t x) d us))
     \<Longrightarrow> m \<in> set (mentions d) \<or> mentionedAt m = t"
proof (induction us arbitrary: d)
  case Nil
  then show ?case by simp
next
  case (Cons u us)
  from Cons.IH [of "addMention u t d"] Cons.prems
  show ?case by (auto simp: addMention_mentions split: if_splits)
qed

lemma fold_addCollaborator_users:
  "set (map perm_user (permissions (foldl (\<lambda>x u. addCollaborator u l a t x) d us)))
     = set (map perm_user (permissions d)) \<union> set us"
proof (induction us arbitrary: d)
  case Nil
  show ?case by simp
next
  case (Cons u us)
  have "set (map perm_user (permissions (addCollaborator u l a t d)))
          = insert u (set (map perm_user (permissions d)))"
    by (auto simp: addCollaborator_users)
  with Cons.IH [of "addCollaborator u l a t d"] show ?case by simp
qed

lemma fold_addCollaborator_collaborators:
  "set (collaborators (foldl (\<lambda>x u. addCollaborator u l a t x) d us))
     = set (collaborators d) \<union> set us"
proof (induction us arbitrary: d)
  case Nil
  show ?case by simp
next
  case (Cons u us)
  have "set (collaborators (addCollaborator u l a t d)) = insert u (set (collaborators d))"
    by (auto simp: addCollaborator_collaborators)
  with Cons.IH [of "addCollaborator u l a t d"] show ?case by simp
qed

lemma doc_inv_fold_addCollaborator:
  "doc_inv d \<Longrightarrow> doc_inv (foldl (\<lambda>x u. addCollaborator u l a t x) d us)"
  by (induction us arbitrary: d) (simp_all add: doc_inv_addCollaborator)

lemma doc_inv_fold_addMention:
  "doc_inv (foldl (\<lambda>x u. addMention u t x) d us) = doc_inv d"
  by (simp add: doc_inv_def)

lemma fold_addCollaborator_entries:
  "p \<in> set (permissions (foldl (\<lambda>x u. addCollaborator u l a t x) d us))
     \<Longrightarrow> p \<in> set (permissions d) \<or> (perm_level p = l \<and> grantedBy p = a \<and> grantedAt p = t)"
proof (induction us arbitrary: d)
  case Nil
  then show ?case by simp
next
  case (Cons u us)
  from Cons.IH [of "addCollaborator u l a t d"] Cons.prems
  have "p \<in> set (permissions (addCollaborator u l a t d))
          \<or> (perm_level p = l \<and> grantedBy p = a \<and> grantedAt p = t)"
    by simp
  then show ?case
    using addCollaborator_entry [of p u l a t d] by auto
qed

subsection \<open>What the routes return\<close>

lemma post_document_Inr:
  assumes "post_document findOne now actor b = Inr d"
  obtains t c p s where
    "b_title b = Some t" "b_content b = Some c" "b_privacy b = Some p" "b_status b = Some s"
    "d = foldl (\<lambda>x u. addCollaborator u View actor now x)
           (foldl (\<lambda>x u. addMention u now x)
              \<lparr>title = t, content = c, author = actor, status = s, privacy = p,
               permissions = [],
               versions = [\<lparr>v_content = c, v_title = t, versionNumber = 2, createdBy = actor,
                            createdAt = now, changeDescription = []\<rparr>],
               currentVersion = 2, tags = (case b_tags b of None \<Rightarrow> [] | Some tg \<Rightarrow> tg),
               mentions = [], collaborators = [], lastModifiedBy = Some actor,
               isDeleted = False\<rparr>
              (resolveMentions findOne c))
           (resolveMentions findOne c)"
proof -
  from assms obtain t c p s where
    f: "b_title b = Some t" "b_content b = Some c" "b_privacy b = Some p" "b_status b = Some s"
    by (auto simp: post_document_def split: option.splits)
  have cr: "Document_create now t c actor p s tg actor =
      \<lparr>obj = \<lparr>title = t, content = c, author = actor, status = s, privacy = p,
               permissions = [],
               versions = [\<lparr>v_content = c, v_title = t, versionNumber = 2, createdBy = actor,
                            createdAt = now, changeDescription = []\<rparr>],
               currentVersion = 2, tags = tg,
               mentions = [], collaborators = [], lastModifiedBy = Some actor,
               isDeleted = False\<rparr>, isNew = False, modifiedPaths = []\<rparr>" for tg
    by (simp add: Document_create_def save_def pre_save_def isModified_def Let_def)
  from assms f have "d = foldl (\<lambda>x u. addCollaborator u View actor now x)
           (foldl (\<lambda>x u. addMention u now x)
              \<lparr>title = t, content = c, author = actor, status = s, privacy = p,
               permissions = [],
               versions = [\<lparr>v_content = c, v_title = t, versionNumber = 2, createdBy = actor,
                            createdAt = now, changeDescription = []\<rparr>],
               currentVersion = 2, tags = (case b_tags b of None \<Rightarrow> [] | Some tg \<Rightarrow> tg),
               mentions = [], collaborators = [], lastModifiedBy = Some actor,
               isDeleted = False\<rparr>
              (resolveMentions findOne c))
           (resolveMentions findOne c)"
    by (simp add: post_document_def Let_def cr foldl_on_obj obj_save split: if_splits)
  with f show ?thesis by (rule that)
qed

lemma delete_document_Inr:
  "delete_document now actor actorRole (Some d) = Inr d' \<Longrightarrow> d' = d\<lparr>isDeleted := True\<rparr>"
  by (auto simp: delete_document_def obj_save split: if_splits)

lemma post_collaborator_Inr:
  "post_collaborator now actor actorRole (Some d) target perm = Inr d'
     \<Longrightarrow> \<exists>u. target = Some u \<and> d' = addCollaborator u perm actor now d"
  by (auto simp: post_collaborator_def obj_save split: if_splits option.splits)

lemma delete_collaborator_Inr:
  "delete_collaborator now actor actorRole (Some d) userId = Inr d'
     \<Longrightarrow> d' = removeCollaborator userId d"
  by (auto simp: delete_collaborator_def obj_save split: if_splits)

lemma put_document_fields:
  assumes "put_document findOne now actor (Some d) b = Inr d'"
  shows "title d' = (if truthy (b_title b) then the (b_title b) else title d)"
    and "content d' = (if truthy (b_content b) then the (b_content b) else content d)"
    and "lastModifiedBy d' = Some actor"
    and "versions d' =
          (if title d' \<noteq> title d \<or> content d' \<noteq> content d
           then versions d @ [\<lparr>v_content = content d', v_title = title d',
                               versionNumber = currentVersion d + 1, createdBy = actor,
                               createdAt = now, changeDescription = []\<rparr>]
           else versions d)"
    and "currentVersion d' =
          (if title d' \<noteq> title d \<or> content d' \<noteq> content d
           then currentVersion d + 1 else currentVersion d)"
    and "permissions d' = permissions (if truthy (b_content b)
            then foldl (\<lambda>x u. addCollaborator u View actor now (addMention u now x)) d
                   (resolveMentions findOne (the (b_content b)))
            else d)"
    and "collaborators d' = collaborators (if truthy (b_content b)
            then foldl (\<lambda>x u. addCollaborator u View actor now (addMention u now x)) d
                   (resolveMentions findOne (the (b_content b)))
            else d)"
proof -
  let ?m = "put_assign findOne now actor b (load d)"
  from assms have d': "d' = obj (save now ?m)"
    by (auto elim: put_document_Inr)
  note md = put_assign_modified [of "load d" findOne now actor b, simplified]
  note fs = put_assign_title [of findOne now actor b "load d", simplified]
    put_assign_content [of findOne now actor b "load d", simplified]
    put_assign_frame [of findOne now actor b "load d", simplified]
    put_assign_access [of findOne now actor b "load d", simplified]
  have t: "title d' = title (obj ?m)" and c: "content d' = content (obj ?m)"
    by (simp_all add: d' obj_save)
  show "title d' = (if truthy (b_title b) then the (b_title b) else title d)"
    by (simp add: t fs)
  show "content d' = (if truthy (b_content b) then the (b_content b) else content d)"
    by (simp add: c fs)
  show "lastModifiedBy d' = Some actor"
    by (simp add: d' obj_save fs)
  show "versions d' =
          (if title d' \<noteq> title d \<or> content d' \<noteq> content d
           then versions d @ [\<lparr>v_content = content d', v_title = title d',
                               versionNumber = currentVersion d + 1, createdBy = actor,
                               createdAt = now, changeDescription = []\<rparr>]
           else versions d)"
    unfolding t c by (simp add: d' obj_save md fs) 
  show "currentVersion d' =
          (if title d' \<noteq> title d \<or> content d' \<noteq> content d
           then currentVersion d + 1 else currentVersion d)"
    unfolding t c by (simp add: d' obj_save md fs)
  show "permissions d' = permissions (if truthy (b_content b)
            then foldl (\<lambda>x u. addCollaborator u View actor now (addMention u now x)) d
                   (resolveMentions findOne (the (b_content b)))
            else d)"
    by (simp add: d' obj_save fs)
  show "collaborators d' = collaborators (if truthy (b_content b)
            then foldl (\<lambda>x u. addCollaborator u View actor now (addMention u now x)) d
                   (resolveMentions findOne (the (b_content b)))
            else d)"
    by (simp add: d' obj_save fs)
qed

lemma post_collaborator_shared:
  "post_collaborator 11 1 UserRole (Some doc_plan) (Some 7) Edit = Inr doc_shared"
  by (simp add: post_collaborator_def doc_plan_def doc_shared_def obj_save addCollaborator_def)

lemma reachable_plan: "reachable doc_plan"
  by (rule reachable.created [OF post_document_plan])

lemma reachable_shared: "reachable doc_shared"
  by (rule reachable.granted [OF reachable_plan post_collaborator_shared])

lemma put_document_retitle:
  "put_document directory 12 1 (Some doc_plan) body_retitle = Inr doc_plan_b"
  by (simp add: put_document_def valid_update_def hasPermission_unfold put_assign_def truthy_def
        Let_def obj_save modifiedPaths_set_title doc_plan_def doc_plan_b_def body_retitle_def)

lemma put_document_publish:
  "put_document directory 13 7 (Some doc_shared) body_publish = Inr doc_published"
  by (simp add: put_document_def valid_update_def hasPermission_unfold put_assign_def truthy_def
        Let_def obj_save doc_plan_def doc_shared_def doc_published_def body_publish_def)

lemma tokens_ping: "mentionTokens ''Plan, reviewed by @alice'' = [''alice'']"
  by code_simp

lemma resolve_ping: "resolveMentions directory ''Plan, reviewed by @alice'' = [7]"
  by (simp add: resolveMentions_def tokens_ping List.map_filter_simps directory_def
        del: mentionTokens.simps)

lemma doc_inv_post_document:
  assumes "post_document findOne now actor b = Inr d"
  shows "doc_inv d"
proof -
  from assms obtain d0 us where
    d: "d = foldl (\<lambda>x u. addCollaborator u View actor now x)
              (foldl (\<lambda>x u. addMention u now x) d0 us) us"
    and d0: "permissions d0 = []" "collaborators d0 = []"
    by (rule post_document_Inr) simp
  from d0 have "doc_inv d0"
    by (simp add: doc_inv_def)
  then have "doc_inv (foldl (\<lambda>x u. addMention u now x) d0 us)"
    by (simp add: doc_inv_fold_addMention)
  then show ?thesis
    unfolding d by (rule doc_inv_fold_addCollaborator)
qed

lemma doc_inv_cong:
  "permissions d' = permissions d \<Longrightarrow> collaborators d' = collaborators d
     \<Longrightarrow> doc_inv d' = doc_inv d"
  by (simp add: doc_inv_def)

lemma doc_inv_put_document:
  assumes "doc_inv d" "put_document findOne now actor (Some d) b = Inr d'"
  shows "doc_inv d'"
proof -
  let ?x = "if truthy (b_content b)
            then foldl (\<lambda>x u. addCollaborator u View actor now (addMention u now x)) d
                   (resolveMentions findOne (the (b_content b)))
            else d"
  have "doc_inv ?x"
    using assms(1) by (simp add: doc_inv_fold_mentions)
  moreover have "doc_inv d' = doc_inv ?x"
    using put_document_fields(6,7) [OF assms(2)] by (rule doc_inv_cong)
  ultimately show ?thesis by simp
qed

section \<open>Permission evaluation\<close>

text \<open>
  On a document with nothing populated and at most one permission entry per user, the
  method grants exactly when the document is public and the required level is view, or
  the user is the author, or the user's entry is at the required level or above it in
  the order view < edit < admin, spelled out: any entry serves for view, an edit or admin
  entry for edit, an admin entry for admin.
\<close>

lemma hasPermission_unpopulated_iff:
  assumes "distinct (map perm_user (permissions d))"
  shows "hasPermission d userId requiredLevel \<longleftrightarrow>
           (privacy d = Public \<and> requiredLevel = View)
         \<or> userId = author d
         \<or> (\<exists>p \<in> set (permissions d). perm_user p = userId
               \<and> (requiredLevel = View
                  \<or> (requiredLevel = Edit \<and> (perm_level p = Edit \<or> perm_level p = Admin))
                  \<or> (requiredLevel = Admin \<and> perm_level p = Admin)))"
proof -
  have ord: "permissionLevels l \<le> permissionLevels k \<longleftrightarrow>
               l = View \<or> (l = Edit \<and> (k = Edit \<or> k = Admin)) \<or> (l = Admin \<and> k = Admin)"
    for l k
    by (cases l; cases k) simp_all
  show ?thesis
  proof (cases "List.find (\<lambda>p. perm_user p = userId) (permissions d)")
    case None
    then have "\<forall>p \<in> set (permissions d). perm_user p \<noteq> userId"
      by (simp add: find_None_iff)
    with None show ?thesis
      by (auto simp: hasPermission_unfold)
  next
    case (Some q)
    then have q: "q \<in> set (permissions d)" "perm_user q = userId"
      by (auto simp: find_Some_iff)
    have uniq: "p = q" if "p \<in> set (permissions d)" "perm_user p = userId" for p
      using find_distinct_key [OF assms that(1)] that(2) Some by simp
    have ex: "(\<exists>p \<in> set (permissions d). perm_user p = userId
               \<and> (requiredLevel = View
                  \<or> (requiredLevel = Edit \<and> (perm_level p = Edit \<or> perm_level p = Admin))
                  \<or> (requiredLevel = Admin \<and> perm_level p = Admin)))
          \<longleftrightarrow> permissionLevels requiredLevel \<le> permissionLevels (perm_level q)"
      unfolding ord using q uniq by blast
    show ?thesis
      unfolding ex hasPermission_unfold Some by auto
  qed
qed

text \<open>
  C1. The method is to grant exactly when the document is public and the level is view,
  or the user is the author, or the user's entry is at the required level or above; the
  single-document route breaks this. It populates \<open>author\<close> and \<open>permissions.user\<close>
  before it calls the method, so both comparisons are between the printed user document
  and an id and fail: on the private document of the run the author, whom the method
  grants on the unpopulated document, is denied view, so is the viewer with an entry, and
  the route answers the author 403.
\<close>

theorem hasPermission_populated_denies:
  "privacy doc_plan = Private \<and> author doc_plan = 1
   \<and> hasPermission doc_plan 1 View
   \<and> \<not> hasPermission_with InspectText doc_plan 1 View
   \<and> hasPermission doc_plan 7 View
   \<and> \<not> hasPermission_with InspectText doc_plan 7 View
   \<and> get_document (Some 1) (Some doc_plan) = Inl Forbidden"
  by (simp add: hasPermission_unfold hasPermission_with_def get_document_def doc_plan_def)

section \<open>Version recording\<close>

text \<open>
  Retitling the created document from \<open>Plan\<close> to \<open>Plan B\<close> appends an entry whose title
  is \<open>Plan B\<close>: the hook runs inside \<open>save\<close>, after the route has assigned the new
  values.
\<close>

theorem put_document_snapshot_counterexample:
  "put_document directory 12 1 (Some doc_plan) body_retitle = Inr doc_plan_b
   \<and> title doc_plan = ''Plan''
   \<and> length (versions doc_plan_b) = length (versions doc_plan) + 1
   \<and> v_title (last (versions doc_plan_b)) = ''Plan B''
   \<and> v_title (last (versions doc_plan_b)) \<noteq> title doc_plan"
  using put_document_retitle by (simp add: doc_plan_b_def doc_plan_def)

text \<open>
  C2, as the code has it. An update of an existing document that changes its title or its
  content appends exactly one entry to \<open>versions\<close>; the entry records the title and the
  content as they are after the edit, is numbered \<open>currentVersion + 1\<close>, is attributed
  to the acting user and stamped with the time of the save; \<open>currentVersion\<close> becomes
  that number.
\<close>

theorem put_document_version_entry:
  assumes "put_document findOne now actor (Some d) b = Inr d'"
    and "title d' \<noteq> title d \<or> content d' \<noteq> content d"
  shows "versions d' = versions d @
           [\<lparr>v_content = content d', v_title = title d',
             versionNumber = currentVersion d + 1, createdBy = actor,
             createdAt = now, changeDescription = []\<rparr>]
         \<and> currentVersion d' = currentVersion d + 1"
  using put_document_fields(4,5) [OF assms(1)] assms(2) by simp

text \<open>The retitling of the run is such an update.\<close>

theorem put_document_version_entry_witness:
  "put_document directory 12 1 (Some doc_plan) body_retitle = Inr doc_plan_b
   \<and> title doc_plan_b \<noteq> title doc_plan
   \<and> versions doc_plan_b = versions doc_plan @
         [\<lparr>v_content = content doc_plan_b, v_title = title doc_plan_b,
           versionNumber = currentVersion doc_plan + 1, createdBy = 1,
           createdAt = 12, changeDescription = []\<rparr>]
   \<and> currentVersion doc_plan_b = currentVersion doc_plan + 1"
proof -
  have ch: "title doc_plan_b \<noteq> title doc_plan"
    by (simp add: doc_plan_b_def doc_plan_def)
  from put_document_version_entry [OF put_document_retitle disjI1, OF ch]
    put_document_retitle ch
  show ?thesis by blast
qed

text \<open>
  The create route of the run returns a document at \<open>currentVersion\<close> 2 whose
  \<open>versions\<close> is not empty: a new Mongoose document has every assigned path modified, so
  the hook runs inside \<open>Document.create\<close>.
\<close>

theorem post_document_versions_counterexample:
  "post_document directory 10 1 body_plan = Inr doc_plan
   \<and> currentVersion doc_plan \<noteq> 1 \<and> versions doc_plan \<noteq> []"
  using post_document_plan by (simp add: doc_plan_def)

text \<open>
  C3, as the code has it. The create route returns a document with \<open>currentVersion\<close> 2
  and exactly one version entry, numbered 2, holding the initial title and content and
  attributed to the author; the first later update that changes title or content appends
  the second entry, numbered 3, holding the new title and content.
\<close>

theorem post_document_versions:
  "(post_document findOne now actor b = Inr d \<longrightarrow>
      currentVersion d = 2
      \<and> versions d = [\<lparr>v_content = content d, v_title = title d, versionNumber = 2,
                        createdBy = actor, createdAt = now, changeDescription = []\<rparr>])
   \<and> (post_document findOne now actor b = Inr d
        \<and> put_document findOne' now' actor' (Some d) b' = Inr d'
        \<and> (title d' \<noteq> title d \<or> content d' \<noteq> content d) \<longrightarrow>
      currentVersion d' = 3
      \<and> versions d' = versions d @
            [\<lparr>v_content = content d', v_title = title d', versionNumber = 3,
              createdBy = actor', createdAt = now', changeDescription = []\<rparr>])"
proof -
  have first: "currentVersion d = 2
      \<and> versions d = [\<lparr>v_content = content d, v_title = title d, versionNumber = 2,
                        createdBy = actor, createdAt = now, changeDescription = []\<rparr>]"
    if "post_document findOne now actor b = Inr d"
    using that by (rule post_document_Inr) simp
  have "currentVersion d' = 3
      \<and> versions d' = versions d @
            [\<lparr>v_content = content d', v_title = title d', versionNumber = 3,
              createdBy = actor', createdAt = now', changeDescription = []\<rparr>]"
    if p: "post_document findOne now actor b = Inr d"
      and u: "put_document findOne' now' actor' (Some d) b' = Inr d'"
      and ch: "title d' \<noteq> title d \<or> content d' \<noteq> content d"
    using put_document_fields(4,5) [OF u] ch first [OF p] by simp
  with first show ?thesis by blast
qed

text \<open>Creation and retitling in the run.\<close>

theorem post_document_versions_witness:
  "currentVersion doc_plan = 2 \<and> length (versions doc_plan) = 1
   \<and> currentVersion doc_plan_b = 3 \<and> length (versions doc_plan_b) = 2"
proof -
  have ch: "title doc_plan_b \<noteq> title doc_plan \<or> content doc_plan_b \<noteq> content doc_plan"
    by (simp add: doc_plan_b_def doc_plan_def)
  from post_document_versions [where findOne = directory and now = 10 and actor = 1
      and b = body_plan and d = doc_plan and findOne' = directory and now' = 12 and actor' = 1
      and b' = body_retitle and d' = doc_plan_b] post_document_plan put_document_retitle ch
  show ?thesis by simp
qed

text \<open>
  C10. An update that leaves title and content as they were appends nothing to
  \<open>versions\<close> and leaves \<open>currentVersion\<close> alone, whatever it does to status, privacy,
  tags, mentions, permissions and collaborators; neither do the collaborator routes and
  the delete route.
\<close>

theorem versions_only_on_title_or_content:
  "(put_document findOne now actor (Some d) b = Inr d'
      \<and> title d' = title d \<and> content d' = content d \<longrightarrow>
        versions d' = versions d \<and> currentVersion d' = currentVersion d)
   \<and> (post_collaborator now actor actorRole (Some d) target perm = Inr d' \<longrightarrow>
        versions d' = versions d \<and> currentVersion d' = currentVersion d)
   \<and> (delete_collaborator now actor actorRole (Some d) userId = Inr d' \<longrightarrow>
        versions d' = versions d \<and> currentVersion d' = currentVersion d)
   \<and> (delete_document now actor actorRole (Some d) = Inr d' \<longrightarrow>
        versions d' = versions d \<and> currentVersion d' = currentVersion d)"
proof -
  have "versions d' = versions d \<and> currentVersion d' = currentVersion d"
    if "put_document findOne now actor (Some d) b = Inr d'"
      "title d' = title d" "content d' = content d"
    using put_document_fields(4,5) [OF that(1)] that(2,3) by simp
  moreover have "versions d' = versions d \<and> currentVersion d' = currentVersion d"
    if "post_collaborator now actor actorRole (Some d) target perm = Inr d'"
    using post_collaborator_Inr [OF that] by (auto simp: addCollaborator_frame)
  moreover have "versions d' = versions d \<and> currentVersion d' = currentVersion d"
    if "delete_collaborator now actor actorRole (Some d) userId = Inr d'"
    using delete_collaborator_Inr [OF that] by (simp add: removeCollaborator_def)
  moreover have "versions d' = versions d \<and> currentVersion d' = currentVersion d"
    if "delete_document now actor actorRole (Some d) = Inr d'"
    using delete_document_Inr [OF that] by simp
  ultimately show ?thesis by blast
qed

text \<open>Publishing the shared document, and sharing the created one, in the run.\<close>

theorem versions_only_on_title_or_content_witness:
  "versions doc_published = versions doc_shared
   \<and> currentVersion doc_published = currentVersion doc_shared
   \<and> versions doc_shared = versions doc_plan
   \<and> currentVersion doc_shared = currentVersion doc_plan"
proof -
  have same: "title doc_published = title doc_shared \<and> content doc_published = content doc_shared"
    by (simp add: doc_published_def)
  from versions_only_on_title_or_content [where findOne = directory and now = 13
      and actor = 7 and d = doc_shared and b = body_publish and d' = doc_published]
    put_document_publish same
  have a: "versions doc_published = versions doc_shared
     \<and> currentVersion doc_published = currentVersion doc_shared"
    by blast
  from versions_only_on_title_or_content [where now = 11 and actor = 1 and d = doc_plan
      and d' = doc_shared and actorRole = UserRole and target = "Some 7" and perm = Edit]
    post_collaborator_shared
  have "versions doc_shared = versions doc_plan
     \<and> currentVersion doc_shared = currentVersion doc_plan"
    by blast
  with a show ?thesis by blast
qed

section \<open>Mention-driven grants\<close>

text \<open>
  C4. The route re-grants \<open>view\<close> through the upsert, so a mentioned editor is lowered:
  user 7 holds \<open>edit\<close> on the shared document of the run; the author saves content that
  mentions her; her one entry is then at \<open>view\<close> and she may no longer edit.
\<close>

theorem mention_downgrades_editor:
  "put_document directory 14 1 (Some doc_shared) body_ping = Inr doc_pinged
   \<and> hasPermission doc_shared 7 Edit \<and> \<not> hasPermission doc_pinged 7 Edit
   \<and> filter (\<lambda>p. perm_user p = 7) (permissions doc_shared)
        = [\<lparr>perm_user = 7, perm_level = Edit, grantedBy = 1, grantedAt = 11\<rparr>]
   \<and> filter (\<lambda>p. perm_user p = 7) (permissions doc_pinged)
        = [\<lparr>perm_user = 7, perm_level = View, grantedBy = 1, grantedAt = 14\<rparr>]"
proof -
  have "put_document directory 14 1 (Some doc_shared) body_ping = Inr doc_pinged"
    by (simp add: put_document_def valid_update_def hasPermission_unfold put_assign_def truthy_def
        Let_def obj_save modifiedPaths_set_content resolve_ping body_ping_def
        addMention_def addCollaborator_def doc_plan_def doc_shared_def doc_pinged_def)
  then show ?thesis
    by (simp add: hasPermission_unfold doc_plan_def doc_shared_def doc_pinged_def)
qed

text \<open>
  C6. After the create route, every user that a token of the content resolved to is in
  \<open>collaborators\<close> once, has one permission entry, at \<open>view\<close> and granted by the author,
  and has one mention entry, however often the token occurs; no user has two mentions.
\<close>

theorem post_document_mentions:
  assumes "post_document findOne now actor b = Inr d"
    and "b_content b = Some c"
    and "u \<in> set (resolveMentions findOne c)"
  shows "count_list (collaborators d) u = 1
       \<and> filter (\<lambda>p. perm_user p = u) (permissions d)
            = [\<lparr>perm_user = u, perm_level = View, grantedBy = actor, grantedAt = now\<rparr>]
       \<and> filter (\<lambda>m. mention_user m = u) (mentions d)
            = [\<lparr>mention_user = u, mentionedAt = now\<rparr>]
       \<and> distinct (map mention_user (mentions d))"
proof -
  let ?us = "resolveMentions findOne c"
  from assms(1,2) obtain d0 where
    d: "d = foldl (\<lambda>x u. addCollaborator u View actor now x)
              (foldl (\<lambda>x u. addMention u now x) d0 ?us) ?us"
    and d0: "permissions d0 = []" "collaborators d0 = []" "mentions d0 = []"
    by (auto elim!: post_document_Inr)
  let ?M = "foldl (\<lambda>x u. addMention u now x) d0 ?us"
  have inv: "doc_inv d"
    using assms(1) by (rule doc_inv_post_document)
  \<comment> \<open>collaborators\<close>
  have "u \<in> set (collaborators d)"
    using assms(3) by (simp add: d fold_addCollaborator_collaborators)
  with inv have col: "count_list (collaborators d) u = 1"
    by (simp add: doc_inv_def count_list_distinct)
  \<comment> \<open>permissions\<close>
  have "u \<in> set (map perm_user (permissions d))"
    using assms(3) unfolding d fold_addCollaborator_users by simp
  then obtain p where p: "p \<in> set (permissions d)" "perm_user p = u"
    by auto
  from p(1) have "perm_level p = View \<and> grantedBy p = actor \<and> grantedAt p = now"
    unfolding d using fold_addCollaborator_entries [of p View actor now ?M ?us]
    by (simp add: d0)
  with p(2) have peq: "p = \<lparr>perm_user = u, perm_level = View, grantedBy = actor, grantedAt = now\<rparr>"
    by simp
  from inv have "distinct (map perm_user (permissions d))"
    by (simp add: doc_inv_def)
  from filter_distinct_key [OF this p(1)] p(2) peq
  have per: "filter (\<lambda>p. perm_user p = u) (permissions d)
            = [\<lparr>perm_user = u, perm_level = View, grantedBy = actor, grantedAt = now\<rparr>]"
    by simp
  \<comment> \<open>mentions\<close>
  have md: "mentions d = mentions ?M"
    by (simp add: d)
  have "u \<in> set (map mention_user (mentions d))"
    using assms(3) unfolding md fold_addMention_users by simp
  then obtain m where m: "m \<in> set (mentions d)" "mention_user m = u"
    by auto
  from m(1) have "mentionedAt m = now"
    unfolding md using fold_addMention_entries [of m now d0 ?us] by (simp add: d0)
  with m(2) have meq: "m = \<lparr>mention_user = u, mentionedAt = now\<rparr>"
    by simp
  have dis: "distinct (map mention_user (mentions d))"
    unfolding md by (rule fold_addMention_distinct) (simp add: d0)
  from filter_distinct_key [OF dis m(1)] m(2) meq
  have "filter (\<lambda>m. mention_user m = u) (mentions d) = [\<lparr>mention_user = u, mentionedAt = now\<rparr>]"
    by simp
  with col per dis show ?thesis by simp
qed

text \<open>The created document of the run: two users, one of them mentioned twice.\<close>

theorem post_document_mentions_witness:
  "7 \<in> set (resolveMentions directory ''Welcome @alice and @bob, thanks @alice'')
   \<and> 8 \<in> set (resolveMentions directory ''Welcome @alice and @bob, thanks @alice'')
   \<and> count_list (collaborators doc_plan) 7 = 1 \<and> count_list (collaborators doc_plan) 8 = 1
   \<and> filter (\<lambda>p. perm_user p = 7) (permissions doc_plan)
        = [\<lparr>perm_user = 7, perm_level = View, grantedBy = 1, grantedAt = 10\<rparr>]
   \<and> filter (\<lambda>p. perm_user p = 8) (permissions doc_plan)
        = [\<lparr>perm_user = 8, perm_level = View, grantedBy = 1, grantedAt = 10\<rparr>]
   \<and> filter (\<lambda>m. mention_user m = 7) (mentions doc_plan)
        = [\<lparr>mention_user = 7, mentionedAt = 10\<rparr>]
   \<and> filter (\<lambda>m. mention_user m = 8) (mentions doc_plan)
        = [\<lparr>mention_user = 8, mentionedAt = 10\<rparr>]"
proof -
  have c: "b_content body_plan = Some ''Welcome @alice and @bob, thanks @alice''"
    by (simp add: body_plan_def)
  have m7: "7 \<in> set (resolveMentions directory ''Welcome @alice and @bob, thanks @alice'')"
    and m8: "8 \<in> set (resolveMentions directory ''Welcome @alice and @bob, thanks @alice'')"
    by (simp_all add: resolve_plan del: mentionTokens.simps)
  from post_document_mentions [OF post_document_plan c m7]
    post_document_mentions [OF post_document_plan c m8] m7 m8
  show ?thesis by blast
qed

section \<open>Collaborators\<close>

text \<open>
  C5. On every document the routes produce (create with mentions, update with mentions,
  grant, revoke, delete), \<open>collaborators\<close> and the users of the \<open>permissions\<close> entries are
  the same set, and no user id occurs twice in either.
\<close>

theorem collaborators_mirror_permissions:
  "reachable d \<Longrightarrow>
     set (collaborators d) = set (map perm_user (permissions d))
     \<and> distinct (collaborators d) \<and> distinct (map perm_user (permissions d))"
proof -
  assume "reachable d"
  then have "doc_inv d"
  proof induction
    case (created findOne now actor b d)
    then show ?case by (rule doc_inv_post_document)
  next
    case (updated d findOne now actor b d')
    then show ?case by (blast intro: doc_inv_put_document)
  next
    case (granted d now actor actorRole target perm d')
    from post_collaborator_Inr [OF granted.hyps(2)] granted.IH show ?case
      by (auto simp: doc_inv_addCollaborator)
  next
    case (revoked d now actor actorRole userId d')
    from delete_collaborator_Inr [OF revoked.hyps(2)] revoked.IH show ?case
      by (simp add: doc_inv_removeCollaborator)
  next
    case (deleted d now actor actorRole d')
    from delete_document_Inr [OF deleted.hyps(2)] deleted.IH show ?case
      by (simp add: doc_inv_def)
  qed
  then show ?thesis by (simp add: doc_inv_def)
qed

text \<open>The shared document of the run.\<close>

theorem collaborators_mirror_permissions_witness:
  "reachable doc_shared
   \<and> set (collaborators doc_shared) = set (map perm_user (permissions doc_shared))
   \<and> distinct (collaborators doc_shared) \<and> distinct (map perm_user (permissions doc_shared))"
  using reachable_shared collaborators_mirror_permissions [OF reachable_shared] by blast

text \<open>
  C7. On a document with at most one entry per user, granting a user the same level twice
  leaves exactly one permission entry for the user, at that level and with the second
  grantor and time, and the user once in \<open>collaborators\<close>; the second grant changes the
  entry in place: the list of permissions keeps its length and \<open>collaborators\<close> is the
  same.
\<close>

theorem addCollaborator_idempotent:
  assumes "distinct (map perm_user (permissions d))" and "distinct (collaborators d)"
  shows "filter (\<lambda>p. perm_user p = u)
            (permissions (addCollaborator u l g2 t2 (addCollaborator u l g1 t1 d)))
           = [\<lparr>perm_user = u, perm_level = l, grantedBy = g2, grantedAt = t2\<rparr>]
       \<and> count_list (collaborators (addCollaborator u l g2 t2 (addCollaborator u l g1 t1 d))) u = 1
       \<and> length (permissions (addCollaborator u l g2 t2 (addCollaborator u l g1 t1 d)))
           = length (permissions (addCollaborator u l g1 t1 d))
       \<and> collaborators (addCollaborator u l g2 t2 (addCollaborator u l g1 t1 d))
           = collaborators (addCollaborator u l g1 t1 d)"
proof -
  let ?d1 = "addCollaborator u l g1 t1 d"
  let ?d2 = "addCollaborator u l g2 t2 ?d1"
  let ?e = "\<lparr>perm_user = u, perm_level = l, grantedBy = g2, grantedAt = t2\<rparr>"
  have dis1: "distinct (map perm_user (permissions ?d1))"
    using assms(1) by (simp add: addCollaborator_users)
  have in1: "u \<in> perm_user ` set (permissions ?d1)"
    using addCollaborator_users [of u l g1 t1 d]
    by (metis (no_types, lifting) image_set in_set_conv_decomp list.set_map)
  have us2: "map perm_user (permissions ?d2) = map perm_user (permissions ?d1)"
    using in1 by (simp add: addCollaborator_users [of u l g2 t2 ?d1])
  have dis2: "distinct (map perm_user (permissions ?d2))"
    using dis1 us2 by simp
  have "?e \<in> set (permissions ?d2)"
    by (rule addCollaborator_has_entry)
  from filter_distinct_key [OF dis2 this]
  have a: "filter (\<lambda>p. perm_user p = u) (permissions ?d2) = [?e]"
    by simp
  have c1: "u \<in> set (collaborators ?d1)" "distinct (collaborators ?d1)"
    using assms(2) by (simp_all add: addCollaborator_collaborators)
  then have c2: "collaborators ?d2 = collaborators ?d1"
    by (simp add: addCollaborator_collaborators [of u l g2 t2 ?d1])
  with c1 have b: "count_list (collaborators ?d2) u = 1"
    by (simp add: count_list_distinct)
  have "length (map perm_user (permissions ?d2)) = length (map perm_user (permissions ?d1))"
    by (simp only: us2)
  then have "length (permissions ?d2) = length (permissions ?d1)"
    by simp
  with a b c2 show ?thesis by simp
qed

text \<open>Granting \<open>edit\<close> to a new user 9 twice on the created document of the run.\<close>

theorem addCollaborator_idempotent_witness:
  "distinct (map perm_user (permissions doc_plan)) \<and> distinct (collaborators doc_plan)
   \<and> filter (\<lambda>p. perm_user p = 9)
        (permissions (addCollaborator 9 Edit 1 21 (addCollaborator 9 Edit 1 20 doc_plan)))
       = [\<lparr>perm_user = 9, perm_level = Edit, grantedBy = 1, grantedAt = 21\<rparr>]
   \<and> count_list (collaborators (addCollaborator 9 Edit 1 21 (addCollaborator 9 Edit 1 20 doc_plan))) 9 = 1"
proof -
  have h: "distinct (map perm_user (permissions doc_plan))" "distinct (collaborators doc_plan)"
    by (simp_all add: doc_plan_def)
  from addCollaborator_idempotent [OF h, of 9 Edit 1 21 1 20] h show ?thesis
    by blast
qed

section \<open>Deletion\<close>




section \<open>Last modifier\<close>

text \<open>
  The editor publishes the shared document of the run without touching title or content,
  and becomes its last modifier in place of the author.
\<close>

theorem lastModifiedBy_counterexample:
  "put_document directory 13 7 (Some doc_shared) body_publish = Inr doc_published
   \<and> title doc_published = title doc_shared \<and> content doc_published = content doc_shared
   \<and> lastModifiedBy doc_shared = Some 1
   \<and> lastModifiedBy doc_published = Some 7"
  using put_document_publish by (simp add: doc_published_def doc_shared_def doc_plan_def)

text \<open>
  C9, as the code has it. \<open>lastModifiedBy\<close> is the author after creation and the acting
  user after every successful update, whether or not the update changes title or
  content; the collaborator routes and the delete route leave it as it was.
\<close>

theorem lastModifiedBy_last_update:
  "(post_document findOne now actor b = Inr d' \<longrightarrow>
       lastModifiedBy d' = Some actor \<and> author d' = actor)
   \<and> (put_document findOne now actor (Some d) b = Inr d' \<longrightarrow> lastModifiedBy d' = Some actor)
   \<and> (post_collaborator now actor actorRole (Some d) target perm = Inr d' \<longrightarrow>
        lastModifiedBy d' = lastModifiedBy d)
   \<and> (delete_collaborator now actor actorRole (Some d) userId = Inr d' \<longrightarrow>
        lastModifiedBy d' = lastModifiedBy d)
   \<and> (delete_document now actor actorRole (Some d) = Inr d' \<longrightarrow>
        lastModifiedBy d' = lastModifiedBy d)"
proof -
  have "lastModifiedBy d' = Some actor \<and> author d' = actor"
    if "post_document findOne now actor b = Inr d'"
    using that by (rule post_document_Inr) simp
  moreover have "lastModifiedBy d' = Some actor"
    if "put_document findOne now actor (Some d) b = Inr d'"
    using put_document_fields(3) [OF that] .
  moreover have "lastModifiedBy d' = lastModifiedBy d"
    if "post_collaborator now actor actorRole (Some d) target perm = Inr d'"
    using post_collaborator_Inr [OF that] by (auto simp: addCollaborator_frame)
  moreover have "lastModifiedBy d' = lastModifiedBy d"
    if "delete_collaborator now actor actorRole (Some d) userId = Inr d'"
    using delete_collaborator_Inr [OF that] by (simp add: removeCollaborator_def)
  moreover have "lastModifiedBy d' = lastModifiedBy d"
    if "delete_document now actor actorRole (Some d) = Inr d'"
    using delete_document_Inr [OF that] by simp
  ultimately show ?thesis by blast
qed

text \<open>The publishing of the run.\<close>

theorem lastModifiedBy_last_update_witness:
  "lastModifiedBy doc_published = Some 7"
  using lastModifiedBy_last_update [where findOne = directory and now = 13 and actor = 7
      and b = body_publish and d' = doc_published and d = doc_shared]
    put_document_publish
  by blast

end
